theory Spec2Isabelle
  imports Main "HOL-Library.AList" "HOL-Library.Word" "HOL-Library.Char_ord" "HOL-Library.List_Lexorder"
begin

section \<open>Strings and POSIX paths\<close>

text \<open>
  Python strings are modelled as \<open>string\<close>; the functions below are the string methods and
  the \<open>os.path\<close> (posixpath) functions that the media store calls.
\<close>

definition bslash :: char where
  "bslash = CHR 0x5C"

definition slash :: char where
  "slash = CHR ''/''"

text \<open>\<open>s.startswith(p)\<close>\<close>

fun startswith :: "string \<Rightarrow> string \<Rightarrow> bool" where
  "startswith s [] = True"
| "startswith [] (p # ps) = False"
| "startswith (c # cs) (p # ps) = (c = p \<and> startswith cs ps)"

text \<open>\<open>sub in s\<close>\<close>

fun str_in :: "string \<Rightarrow> string \<Rightarrow> bool" where
  "str_in sub [] = (sub = [])"
| "str_in sub (c # cs) = (startswith (c # cs) sub \<or> str_in sub cs)"

text \<open>\<open>s.endswith(p)\<close>\<close>

definition endswith :: "string \<Rightarrow> string \<Rightarrow> bool" where
  "endswith s p = startswith (rev s) (rev p)"

text \<open>\<open>s.replace("\\", "/")\<close>\<close>

definition replace_bslash :: "string \<Rightarrow> string" where
  "replace_bslash s = map (\<lambda>c. if c = bslash then slash else c) s"

text \<open>\<open>s.lower()\<close> on ASCII letters.\<close>

definition lower_char :: "char \<Rightarrow> char" where
  "lower_char c =
     (case map_of (zip ''ABCDEFGHIJKLMNOPQRSTUVWXYZ'' ''abcdefghijklmnopqrstuvwxyz'') c of
        Some d \<Rightarrow> d
      | None \<Rightarrow> c)"

definition lower :: "string \<Rightarrow> string" where
  "lower s = map lower_char s"

text \<open>\<open>os.path.isabs\<close>, \<open>os.path.join\<close> (two arguments), \<open>os.path.basename\<close>.\<close>

definition isabs :: "string \<Rightarrow> bool" where
  "isabs p = startswith p ''/''"

definition path_join :: "string \<Rightarrow> string \<Rightarrow> string" where
  "path_join a b =
     (if startswith b ''/'' then b
      else if a = [] \<or> endswith a ''/'' then a @ b
      else a @ ''/'' @ b)"

definition basename :: "string \<Rightarrow> string" where
  "basename p = rev (takeWhile (\<lambda>c. c \<noteq> slash) (rev p))"

definition dirpart :: "string \<Rightarrow> string" where
  "dirpart p = rev (dropWhile (\<lambda>c. c \<noteq> slash) (rev p))"

text \<open>
  \<open>os.path.splitext\<close>: the extension starts at the last dot of the last component,
  provided a character other than a dot precedes it there.
\<close>

definition splitext :: "string \<Rightarrow> string \<times> string" where
  "splitext p =
     (let fn = basename p;
          ext = rev (takeWhile (\<lambda>c. c \<noteq> CHR ''.'') (rev fn));
          stem = take (length fn - length ext - 1) fn
      in if CHR ''.'' \<in> set fn \<and> (\<exists>c \<in> set stem. c \<noteq> CHR ''.'')
         then (dirpart p @ stem, CHR ''.'' # ext)
         else (p, []))"

text \<open>\<open>s.split("/")\<close> and \<open>"/".join(comps)\<close>.\<close>

fun split_slash :: "string \<Rightarrow> string list" where
  "split_slash [] = [[]]"
| "split_slash (c # cs) =
     (if c = slash then [] # split_slash cs
      else (case split_slash cs of [] \<Rightarrow> [[c]] | w # ws \<Rightarrow> (c # w) # ws))"

fun join_slash :: "string list \<Rightarrow> string" where
  "join_slash [] = []"
| "join_slash [w] = w"
| "join_slash (w # ws) = w @ ''/'' @ join_slash ws"

text \<open>
  The component loop of \<open>os.path.normpath\<close>; \<open>anchored\<close> is Python's
  \<open>initial_slashes\<close> being non-zero, \<open>acc\<close> is \<open>new_comps\<close>.
\<close>

fun norm_comps :: "bool \<Rightarrow> string list \<Rightarrow> string list \<Rightarrow> string list" where
  "norm_comps anchored acc [] = acc"
| "norm_comps anchored acc (part # comps) =
     (if part = [] \<or> part = ''.'' then norm_comps anchored acc comps
      else if part \<noteq> ''..'' \<or> (\<not> anchored \<and> acc = []) \<or> (acc \<noteq> [] \<and> last acc = ''..'')
        then norm_comps anchored (acc @ [part]) comps
      else if acc \<noteq> [] then norm_comps anchored (butlast acc) comps
      else norm_comps anchored acc comps)"

definition normpath :: "string \<Rightarrow> string" where
  "normpath path =
     (if path = [] then ''.''
      else
        let initial_slashes =
              (if startswith path ''/'' then
                 (if startswith path ''//'' \<and> \<not> startswith path ''///'' then 2 else 1)
               else (0::nat));
            comps = norm_comps (initial_slashes \<noteq> 0) [] (split_slash path);
            p = replicate initial_slashes slash @ join_slash comps
        in if p = [] then ''.'' else p)"

section \<open>Reference classification\<close>

text \<open>\<open>is_base_image_ref\<close>, \<open>is_base_video_ref\<close>, \<open>is_overlay_ref\<close> of media_store.py.\<close>

definition is_base_image_ref :: "string \<Rightarrow> bool" where
  "is_base_image_ref ref =
     (if ref = [] then False
      else startswith ref ''MEDIA_IMG__''
         \<or> startswith ref ''base_images/'' \<or> startswith ref (''base_images'' @ [bslash])
         \<or> str_in ''/base_images/'' ref \<or> str_in (bslash # ''base_images'' @ [bslash]) ref)"

definition is_base_video_ref :: "string \<Rightarrow> bool" where
  "is_base_video_ref ref =
     (if ref = [] then False
      else startswith ref ''MEDIA_VID__''
         \<or> startswith ref ''base_videos/'' \<or> startswith ref (''base_videos'' @ [bslash])
         \<or> str_in ''/base_videos/'' ref \<or> str_in (bslash # ''base_videos'' @ [bslash]) ref)"

definition is_overlay_ref :: "string \<Rightarrow> bool" where
  "is_overlay_ref ref =
     (if ref = [] then False
      else startswith ref ''CANVAS__''
         \<or> startswith ref ''overlays/'' \<or> startswith ref (''overlays'' @ [bslash])
         \<or> str_in ''/overlays/'' ref \<or> str_in (bslash # ''overlays'' @ [bslash]) ref)"

section \<open>The filesystem and the library environment\<close>

text \<open>
  The filesystem is a finite table from normalised paths to nodes. Every access normalises
  its path with \<open>normpath\<close> first, so two spellings of one path name one node; symbolic
  links are not modelled. The order of the table is the order in which \<open>os.listdir\<close>
  reports the entries.
\<close>

type_synonym bytes = "8 word list"

datatype node = File bytes | Dir

type_synonym filesystem = "(string \<times> node) list"

definition node_at :: "filesystem \<Rightarrow> string \<Rightarrow> node option" where
  "node_at fs p = map_of fs (normpath p)"

text \<open>\<open>os.path.exists\<close>, \<open>os.path.isdir\<close>\<close>

definition path_exists :: "filesystem \<Rightarrow> string \<Rightarrow> bool" where
  "path_exists fs p = (node_at fs p \<noteq> None)"

definition isdir :: "filesystem \<Rightarrow> string \<Rightarrow> bool" where
  "isdir fs p = (node_at fs p = Some Dir)"

text \<open>Reading a file; \<open>None\<close> is the exception of \<open>open\<close> on a missing path or a directory.\<close>

definition read_file :: "filesystem \<Rightarrow> string \<Rightarrow> bytes option" where
  "read_file fs p = (case node_at fs p of Some (File b) \<Rightarrow> Some b | _ \<Rightarrow> None)"

definition write_file :: "filesystem \<Rightarrow> string \<Rightarrow> bytes \<Rightarrow> filesystem" where
  "write_file fs p b = AList.update (normpath p) (File b) fs"

definition makedirs :: "filesystem \<Rightarrow> string \<Rightarrow> filesystem" where
  "makedirs fs p = AList.update (normpath p) Dir fs"

text \<open>\<open>os.remove\<close>: \<open>None\<close> is the exception raised for a missing path or a directory.\<close>

definition os_remove :: "filesystem \<Rightarrow> string \<Rightarrow> filesystem option" where
  "os_remove fs p =
     (case node_at fs p of
        Some (File b) \<Rightarrow> Some (AList.delete (normpath p) fs)
      | _ \<Rightarrow> None)"

text \<open>\<open>os.path.dirname\<close> and \<open>os.listdir\<close>\<close>

definition dirname :: "string \<Rightarrow> string" where
  "dirname p =
     (let head = dirpart p
      in if head \<noteq> [] \<and> head \<noteq> replicate (length head) slash
         then rev (dropWhile (\<lambda>c. c = slash) (rev head))
         else head)"

definition listdir :: "filesystem \<Rightarrow> string \<Rightarrow> string list" where
  "listdir fs d =
     map (\<lambda>(k, v). basename k)
       (filter (\<lambda>(k, v). dirname k = normpath d \<and> basename k \<noteq> []) fs)"

text \<open>
  A PIL image: mode, size (width, height) and sample data. The codecs and digests of the
  libraries (PIL, pillow_heif, hashlib), the location of the module and the outcome of
  writes and moves on the disk are parameters of the model, collected in \<open>env\<close>.
  Where the source catches or propagates an exception of a library call, the call
  returns an option and \<open>None\<close> is the exception.
\<close>

record image =
  img_mode :: string
  img_size :: "nat \<times> nat"
  img_data :: "nat list"

record env =
  base_dir :: string
  sha256_hexdigest :: "bytes \<Rightarrow> string"
  image_open :: "bytes \<Rightarrow> image option"
  heif_open :: "bytes \<Rightarrow> image option"
  convert :: "string \<Rightarrow> image \<Rightarrow> image"
  resize_lanczos :: "image \<Rightarrow> nat \<times> nat \<Rightarrow> image option"
  save_jpeg :: "nat \<Rightarrow> bool \<Rightarrow> image \<Rightarrow> bytes"
  save_png :: "image \<Rightarrow> bytes"
  write_ok :: "string \<Rightarrow> bool"
  move_ok :: "string \<Rightarrow> string \<Rightarrow> bool"

definition MEDIA_ROOT :: "env \<Rightarrow> string" where
  "MEDIA_ROOT env = path_join (base_dir env) ''GlobalMedia''"

definition MEDIA_BASE_IMAGES :: "env \<Rightarrow> string" where
  "MEDIA_BASE_IMAGES env = path_join (MEDIA_ROOT env) ''base_images''"

definition MEDIA_BASE_VIDEOS :: "env \<Rightarrow> string" where
  "MEDIA_BASE_VIDEOS env = path_join (MEDIA_ROOT env) ''base_videos''"

definition MEDIA_OVERLAYS :: "env \<Rightarrow> string" where
  "MEDIA_OVERLAYS env = path_join (MEDIA_ROOT env) ''overlays''"

definition MEDIA_IMAGES_EDITED :: "env \<Rightarrow> string" where
  "MEDIA_IMAGES_EDITED env = path_join (MEDIA_ROOT env) ''images_edited''"

definition JPEG_QUALITY_FULL :: nat where
  "JPEG_QUALITY_FULL = 90"

definition MAX_IMAGE_WIDTH :: nat where
  "MAX_IMAGE_WIDTH = 1800"

fun ensure_dirs_exist :: "filesystem \<Rightarrow> string list \<Rightarrow> filesystem" where
  "ensure_dirs_exist fs [] = fs"
| "ensure_dirs_exist fs (p # ps) =
     ensure_dirs_exist (if p \<noteq> [] \<and> \<not> path_exists fs p then makedirs fs p else fs) ps"

definition ensure_media_dirs :: "env \<Rightarrow> filesystem \<Rightarrow> filesystem" where
  "ensure_media_dirs env fs =
     ensure_dirs_exist fs
       [MEDIA_ROOT env, MEDIA_BASE_IMAGES env, MEDIA_BASE_VIDEOS env, MEDIA_OVERLAYS env,
        MEDIA_IMAGES_EDITED env]"

definition get_base_image_path :: "env \<Rightarrow> string \<Rightarrow> string" where
  "get_base_image_path env filename = path_join (MEDIA_BASE_IMAGES env) filename"

definition get_base_video_path :: "env \<Rightarrow> string \<Rightarrow> string" where
  "get_base_video_path env filename = path_join (MEDIA_BASE_VIDEOS env) filename"

definition get_overlay_path :: "env \<Rightarrow> string \<Rightarrow> string" where
  "get_overlay_path env filename = path_join (MEDIA_OVERLAYS env) filename"

section \<open>Reference resolution\<close>

text \<open>
  Python's truth value of an optional string, and \<open>a or b\<close> on two of them.
\<close>

definition truthy :: "string option \<Rightarrow> bool" where
  "truthy v = (case v of None \<Rightarrow> False | Some s \<Rightarrow> s \<noteq> [])"


text \<open>\<open>if os.path.exists(path): return path\<close>, and falling through to the next attempt.\<close>

definition try_path :: "filesystem \<Rightarrow> string \<Rightarrow> string option" where
  "try_path fs p = (if path_exists fs p then Some p else None)"

definition or_else :: "'a option \<Rightarrow> 'a option \<Rightarrow> 'a option" where
  "or_else a b = (case a of Some x \<Rightarrow> Some x | None \<Rightarrow> b)"

text \<open>
  \<open>resolve_media_path(ref, project_paths)\<close>; \<open>project_root\<close> is
  \<open>project_paths["root"]\<close> when the dict is non-empty and has that key.
\<close>

definition resolve_media_path :: "env \<Rightarrow> filesystem \<Rightarrow> string \<Rightarrow> string option \<Rightarrow> string option" where
  "resolve_media_path env fs ref project_root =
     (if ref = [] then None
      else if isabs ref then (if path_exists fs ref then Some ref else None)
      else
        or_else
          (if is_base_image_ref ref then
             or_else
               (if startswith ref ''MEDIA_IMG__'' then try_path fs (get_base_image_path env ref)
                else None)
               (try_path fs (path_join (MEDIA_ROOT env) ref))
           else None)
       (or_else
          (if is_base_video_ref ref then
             or_else
               (if startswith ref ''MEDIA_VID__'' then try_path fs (get_base_video_path env ref)
                else None)
               (try_path fs (path_join (MEDIA_ROOT env) ref))
           else None)
       (or_else
          (if is_overlay_ref ref then
             or_else
               (if startswith ref ''CANVAS__'' then try_path fs (get_overlay_path env ref)
                else None)
               (try_path fs (path_join (MEDIA_ROOT env) ref))
           else None)
       (or_else
          (try_path fs (path_join (MEDIA_ROOT env) ref))
          (case project_root of
             Some root \<Rightarrow> try_path fs (path_join root ref)
           | None \<Rightarrow> None)))))"

text \<open>
  The paths that \<open>resolve_media_path\<close> tests for a relative reference, in the order of
  the tests.
\<close>

definition candidate_paths :: "env \<Rightarrow> string \<Rightarrow> string option \<Rightarrow> string list" where
  "candidate_paths env ref project_root =
     (if is_base_image_ref ref \<and> startswith ref ''MEDIA_IMG__''
        then [get_base_image_path env ref] else []) @
     (if is_base_video_ref ref \<and> startswith ref ''MEDIA_VID__''
        then [get_base_video_path env ref] else []) @
     (if is_overlay_ref ref \<and> startswith ref ''CANVAS__''
        then [get_overlay_path env ref] else []) @
     [path_join (MEDIA_ROOT env) ref] @
     (case project_root of Some root \<Rightarrow> [path_join root ref] | None \<Rightarrow> [])"

section \<open>Deleting media\<close>

text \<open>\<open>delete_global_media(ref)\<close>: the result and the filesystem after the call.\<close>

definition delete_global_media :: "env \<Rightarrow> filesystem \<Rightarrow> string \<Rightarrow> bool \<times> filesystem" where
  "delete_global_media env fs ref =
     (if ref = [] then (False, fs)
      else
        case resolve_media_path env fs ref None of
          None \<Rightarrow> (False, fs)
        | Some abs_path \<Rightarrow>
            if path_exists fs abs_path then
              (case os_remove fs abs_path of
                 Some fs' \<Rightarrow> (True, fs')
               | None \<Rightarrow> (False, fs))
            else (False, fs))"

section \<open>The project index\<close>

text \<open>
  A list entry (\<open>ctx_list\<close>, \<open>add_fehler_list\<close>, \<open>add_after_list\<close>) and a record of the
  index, with the fields that hold media references. A missing key and a \<open>None\<close> value
  are both \<open>None\<close>; a missing list is the empty list.
\<close>

record entry =
  e_base :: "string option"
  e_overlay :: "string option"
  e_raw :: "string option"
  e_edited :: "string option"

record image_record =
  audit_id :: "string option"
  nr :: "string option"
  base_image :: "string option"
  overlay :: "string option"
  after_base :: "string option"
  after_overlay :: "string option"
  raw :: "string option"
  edited :: "string option"
  after_raw :: "string option"
  after_edited :: "string option"
  ctx_list :: "entry list"
  add_fehler_list :: "entry list"
  add_after_list :: "entry list"
  videos :: "string list"

record index =
  project_id :: "string option"
  images :: "image_record list"

section \<open>Shared-reference check\<close>

text \<open>
  The values that \<open>is_media_shared\<close> compares with the reference while it visits one
  record, in the order of its loops: the six record fields, then the fields
  \<open>base\<close>, \<open>raw\<close>, \<open>edited\<close> of each entry of the three lists, then the videos.
\<close>

definition entry_fields :: "entry \<Rightarrow> string option list" where
  "entry_fields e = [e_base e, e_raw e, e_edited e]"

definition record_fields :: "image_record \<Rightarrow> string option list" where
  "record_fields r =
     [base_image r, after_base r, raw r, edited r, after_raw r, after_edited r] @
     concat (map entry_fields (ctx_list r)) @
     concat (map entry_fields (add_fehler_list r)) @
     concat (map entry_fields (add_after_list r)) @
     map Some (videos r)"

text \<open>
  One comparison: \<open>Inl True\<close> is \<open>return True\<close>, \<open>Inr n\<close> continues with
  \<open>use_count = n\<close>. \<open>excluding\<close> is \<open>exclude_rec is not None\<close>.
\<close>

definition count_use :: "string \<Rightarrow> bool \<Rightarrow> string option \<Rightarrow> nat \<Rightarrow> bool + nat" where
  "count_use norm_ref excluding v use_count =
     (if truthy v \<and> replace_bslash (the v) = norm_ref then
        (let c = use_count + 1
         in if c > 0 \<and> excluding then Inl True
            else if c > 1 then Inl True
            else Inr c)
      else Inr use_count)"

fun count_uses :: "string \<Rightarrow> bool \<Rightarrow> string option list \<Rightarrow> nat \<Rightarrow> bool + nat" where
  "count_uses norm_ref excluding [] use_count = Inr use_count"
| "count_uses norm_ref excluding (v # vs) use_count =
     (case count_use norm_ref excluding v use_count of
        Inl b \<Rightarrow> Inl b
      | Inr c \<Rightarrow> count_uses norm_ref excluding vs c)"

text \<open>
  The loop over \<open>index["images"]\<close>. \<open>exclude_rec\<close> is the position in that list of the
  record object passed as \<open>exclude_rec\<close> (the source compares with \<open>is\<close>), \<open>i\<close> the
  position of the record being visited.
\<close>

fun scan_records :: "string \<Rightarrow> nat option \<Rightarrow> nat \<Rightarrow> image_record list \<Rightarrow> nat \<Rightarrow> bool" where
  "scan_records norm_ref exclude_rec i [] use_count = False"
| "scan_records norm_ref exclude_rec i (r # rs) use_count =
     (if exclude_rec = Some i then scan_records norm_ref exclude_rec (i + 1) rs use_count
      else
        case count_uses norm_ref (exclude_rec \<noteq> None) (record_fields r) use_count of
          Inl b \<Rightarrow> b
        | Inr c \<Rightarrow> scan_records norm_ref exclude_rec (i + 1) rs c)"

definition is_media_shared :: "index \<Rightarrow> string \<Rightarrow> nat option \<Rightarrow> bool" where
  "is_media_shared idx media_ref exclude_rec =
     (if media_ref = [] then False
      else if is_overlay_ref media_ref then False
      else scan_records (replace_bslash media_ref) exclude_rec 0 (images idx) 0)"

definition safe_delete_global_media ::
    "env \<Rightarrow> filesystem \<Rightarrow> index \<Rightarrow> string \<Rightarrow> nat option \<Rightarrow> bool \<times> filesystem" where
  "safe_delete_global_media env fs idx ref current_rec =
     (if ref = [] then (False, fs)
      else if is_overlay_ref ref then delete_global_media env fs ref
      else if is_media_shared idx ref current_rec then (False, fs)
      else delete_global_media env fs ref)"

section \<open>Clearing an overlay\<close>





section \<open>The media registry\<close>

text \<open>
  The registry document \<open>media_registry.json\<close>: two dictionaries from content hash to
  reference, in insertion order. It is kept beside the filesystem table as a component
  of its own: absent, present but unreadable (\<open>json.load\<close> raises), or present with a
  content. A section that the document lacks reads as the empty dictionary.
\<close>

record registry =
  reg_images :: "(string \<times> string) list"
  reg_videos :: "(string \<times> string) list"

datatype registry_file = Absent | Unreadable | Document registry

record store =
  files :: filesystem
  registry_doc :: registry_file

datatype error = DecodeError | StorageError

definition empty_registry :: registry where
  "empty_registry = \<lparr>reg_images = [], reg_videos = []\<rparr>"

text \<open>\<open>registry[section]\<close> for \<open>section = "images" if media_type == "image" else "videos"\<close>\<close>

definition reg_section :: "string \<Rightarrow> registry \<Rightarrow> (string \<times> string) list" where
  "reg_section media_type reg = (if media_type = ''image'' then reg_images reg else reg_videos reg)"

definition section_put :: "string \<Rightarrow> string \<Rightarrow> string \<Rightarrow> registry \<Rightarrow> registry" where
  "section_put media_type k v reg =
     (if media_type = ''image'' then reg\<lparr>reg_images := AList.update k v (reg_images reg)\<rparr>
      else reg\<lparr>reg_videos := AList.update k v (reg_videos reg)\<rparr>)"

definition load_media_registry :: "env \<Rightarrow> store \<Rightarrow> registry \<times> store" where
  "load_media_registry env s =
     (let s1 = s\<lparr>files := ensure_media_dirs env (files s)\<rparr>
      in (case registry_doc s1 of
            Document reg \<Rightarrow> reg
          | Unreadable \<Rightarrow> empty_registry
          | Absent \<Rightarrow> empty_registry, s1))"

definition save_media_registry :: "env \<Rightarrow> registry \<Rightarrow> store \<Rightarrow> store" where
  "save_media_registry env reg s =
     s\<lparr>files := ensure_media_dirs env (files s), registry_doc := Document reg\<rparr>"

definition compute_file_hash :: "env \<Rightarrow> bytes \<Rightarrow> string" where
  "compute_file_hash env data = sha256_hexdigest env data"

definition compute_pil_hash :: "env \<Rightarrow> image \<Rightarrow> string" where
  "compute_pil_hash env pil_image =
     compute_file_hash env (save_jpeg env 95 False (convert env ''RGB'' pil_image))"

definition register_media :: "env \<Rightarrow> string \<Rightarrow> string \<Rightarrow> string \<Rightarrow> store \<Rightarrow> store" where
  "register_media env content_hash ref media_type s =
     (let (reg, s1) = load_media_registry env s
      in save_media_registry env (section_put media_type content_hash ref reg) s1)"

text \<open>
  The loop bodies of \<open>_scan_base_images_and_register\<close> and
  \<open>_scan_base_videos_and_register\<close> for one directory entry \<open>fn\<close>.
\<close>

definition scan_image_entry :: "env \<Rightarrow> filesystem \<Rightarrow> string \<Rightarrow> registry \<Rightarrow> registry" where
  "scan_image_entry env fs fn reg =
     (let ext = snd (splitext (lower fn))
      in if ext \<notin> set [''.jpg'', ''.jpeg'', ''.png''] then reg
         else
           case read_file fs (path_join (MEDIA_BASE_IMAGES env) fn) of
             None \<Rightarrow> reg
           | Some data \<Rightarrow>
               (case image_open env data of
                  None \<Rightarrow> reg
                | Some im \<Rightarrow>
                    let h = compute_pil_hash env im; ref = ''base_images/'' @ fn
                    in if h \<noteq> [] \<and> ref \<noteq> [] \<and> map_of (reg_images reg) h = None
                       then reg\<lparr>reg_images := AList.update h ref (reg_images reg)\<rparr>
                       else reg))"

definition scan_video_entry :: "env \<Rightarrow> filesystem \<Rightarrow> string \<Rightarrow> registry \<Rightarrow> registry" where
  "scan_video_entry env fs fn reg =
     (let ext = snd (splitext (lower fn))
      in if ext \<notin> set [''.mp4'', ''.mov'', ''.avi'', ''.mkv'', ''.webm''] then reg
         else
           case read_file fs (path_join (MEDIA_BASE_VIDEOS env) fn) of
             None \<Rightarrow> reg
           | Some data \<Rightarrow>
               let h = compute_file_hash env data; ref = ''base_videos/'' @ fn
               in if h \<noteq> [] \<and> ref \<noteq> [] \<and> map_of (reg_videos reg) h = None
                  then reg\<lparr>reg_videos := AList.update h ref (reg_videos reg)\<rparr>
                  else reg)"

definition scan_base_images_and_register :: "env \<Rightarrow> store \<Rightarrow> registry \<Rightarrow> registry \<times> store" where
  "scan_base_images_and_register env s reg =
     (let s1 = s\<lparr>files := ensure_media_dirs env (files s)\<rparr>
      in if \<not> isdir (files s1) (MEDIA_BASE_IMAGES env) then (reg, s1)
         else (fold (scan_image_entry env (files s1))
                 (listdir (files s1) (MEDIA_BASE_IMAGES env)) reg, s1))"

definition scan_base_videos_and_register :: "env \<Rightarrow> store \<Rightarrow> registry \<Rightarrow> registry \<times> store" where
  "scan_base_videos_and_register env s reg =
     (let s1 = s\<lparr>files := ensure_media_dirs env (files s)\<rparr>
      in if \<not> isdir (files s1) (MEDIA_BASE_VIDEOS env) then (reg, s1)
         else (fold (scan_video_entry env (files s1))
                 (listdir (files s1) (MEDIA_BASE_VIDEOS env)) reg, s1))"

definition scan_and_register :: "env \<Rightarrow> string \<Rightarrow> store \<Rightarrow> registry \<Rightarrow> registry \<times> store" where
  "scan_and_register env media_type s reg =
     (if media_type = ''image'' then scan_base_images_and_register env s reg
      else scan_base_videos_and_register env s reg)"

definition ensure_registry_is_populated :: "env \<Rightarrow> string \<Rightarrow> store \<Rightarrow> registry \<times> store" where
  "ensure_registry_is_populated env media_type s =
     (let (reg, s1) = load_media_registry env s
      in if registry_doc s1 = Absent \<or> reg_section media_type reg = [] then
           (let (reg2, s2) = scan_and_register env media_type s1 reg
            in (reg2, save_media_registry env reg2 s2))
         else (reg, s1))"

text \<open>
  \<open>abs_path = resolve_media_path(ref, {})\<close> followed by the test
  \<open>abs_path and os.path.exists(abs_path)\<close>.
\<close>

definition resolves_to_existing :: "env \<Rightarrow> filesystem \<Rightarrow> string \<Rightarrow> bool" where
  "resolves_to_existing env fs ref =
     (case resolve_media_path env fs ref None of
        None \<Rightarrow> False
      | Some abs_path \<Rightarrow> abs_path \<noteq> [] \<and> path_exists fs abs_path)"

text \<open>
  \<open>if ref:\<close> around that resolution, for a reference that may be \<open>None\<close>.
\<close>

definition usable_ref :: "env \<Rightarrow> filesystem \<Rightarrow> string option \<Rightarrow> bool" where
  "usable_ref env fs ref =
     (case ref of None \<Rightarrow> False | Some r \<Rightarrow> r \<noteq> [] \<and> resolves_to_existing env fs r)"

definition find_existing_by_hash_or_scan ::
    "env \<Rightarrow> string \<Rightarrow> string \<Rightarrow> store \<Rightarrow> string option \<times> store" where
  "find_existing_by_hash_or_scan env content_hash media_type s =
     (if content_hash = [] then (None, s)
      else
        let (reg, s1) = ensure_registry_is_populated env media_type s;
            ref = map_of (reg_section media_type reg) content_hash
        in if usable_ref env (files s1) ref
           then (ref, s1)
           else
             let (reg2, s2) = scan_and_register env media_type s1 reg;
                 s3 = save_media_registry env reg2 s2
             in (map_of (reg_section media_type reg2) content_hash, s3))"

section \<open>Attaching media\<close>

text \<open>
  \<open>uid\<close> is the value of \<open>uuid.uuid4().hex[:16]\<close> drawn by the call.
\<close>

definition generate_base_media_filename :: "string \<Rightarrow> string \<Rightarrow> string" where
  "generate_base_media_filename uid extension =
     (let ext = (if startswith extension ''.'' then lower extension else ''.'' @ lower extension)
      in ''MEDIA_IMG__'' @ uid @ ext)"

definition generate_base_video_filename :: "string \<Rightarrow> string \<Rightarrow> string" where
  "generate_base_video_filename uid extension =
     (let ext = (if startswith extension ''.'' then lower extension else ''.'' @ lower extension)
      in ''MEDIA_VID__'' @ uid @ ext)"

definition ensure_rgb :: "env \<Rightarrow> image \<Rightarrow> image" where
  "ensure_rgb env img = convert env ''RGB'' img"

definition decode_upload_to_pil :: "env \<Rightarrow> bytes \<Rightarrow> string \<Rightarrow> image option" where
  "decode_upload_to_pil env data filename =
     (if endswith (lower filename) ''.heic'' then map_option (ensure_rgb env) (heif_open env data)
      else map_option (ensure_rgb env) (image_open env data))"

text \<open>
  \<open>int(round(h * scale))\<close> with \<open>scale = target_w / float(w)\<close>: the quotient
  \<open>h * target_w / w\<close> rounded to the nearest integer, ties to even, in exact arithmetic.
\<close>

definition round_scaled :: "nat \<Rightarrow> nat \<Rightarrow> nat \<Rightarrow> nat" where
  "round_scaled h target_w w =
     (let n = h * target_w; q = n div w; r = n mod w
      in if 2 * r < w then q
         else if 2 * r > w then q + 1
         else if even q then q else q + 1)"

definition downscale_to_width :: "env \<Rightarrow> image \<Rightarrow> nat \<Rightarrow> image option" where
  "downscale_to_width env img target_w =
     (let (w, h) = img_size img
      in if w \<le> target_w then Some img
         else resize_lanczos env img (target_w, round_scaled h target_w w))"

text \<open>
  \<open>pil_to_jpg(img, out_path, quality)\<close>: the path written and the filesystem, or the
  exception of \<open>img.save\<close> when the disk refuses the write.
\<close>

definition pil_to_jpg ::
    "env \<Rightarrow> filesystem \<Rightarrow> image \<Rightarrow> string \<Rightarrow> nat \<Rightarrow> (error + string) \<times> filesystem" where
  "pil_to_jpg env fs img0 out_path0 quality =
     (let img1 = ensure_rgb env img0;
          img = (if MAX_IMAGE_WIDTH \<noteq> 0 \<and> fst (img_size img1) > MAX_IMAGE_WIDTH then
                   (case downscale_to_width env img1 MAX_IMAGE_WIDTH of
                      Some small \<Rightarrow> small
                    | None \<Rightarrow> img1)
                 else img1);
          fs1 = ensure_dirs_exist fs [dirname out_path0];
          out_path = (if \<not> endswith (lower out_path0) ''.jpg''
                      then fst (splitext out_path0) @ ''.jpg'' else out_path0)
      in if write_ok env out_path
         then (Inr out_path, write_file fs1 out_path (save_jpeg env quality True img))
         else (Inl StorageError, fs1))"

definition attach_image ::
    "env \<Rightarrow> string \<Rightarrow> (bytes \<times> string option) option \<Rightarrow> bytes option \<Rightarrow> string option \<Rightarrow> image option
       \<Rightarrow> store \<Rightarrow> (error + string option) \<times> store" where
  "attach_image env uid uploaded_file uploaded_bytes uploaded_filename pil_image s =
     (let s0 = s\<lparr>files := ensure_media_dirs env (files s)\<rparr>;
          decoded =
            (case pil_image of
               Some im \<Rightarrow> Some (Some (convert env ''RGB'' im))
             | None \<Rightarrow>
                 (case uploaded_file of
                    Some (data, name) \<Rightarrow>
                      Some (decode_upload_to_pil env data
                              (case name of Some n \<Rightarrow> n | None \<Rightarrow> ''upload.jpg''))
                  | None \<Rightarrow>
                      (case uploaded_bytes of
                         Some data \<Rightarrow>
                           Some (decode_upload_to_pil env data
                                   (if truthy uploaded_filename then the uploaded_filename
                                    else ''upload.jpg''))
                       | None \<Rightarrow> None)))
      in case decoded of
           None \<Rightarrow> (Inr None, s0)
         | Some None \<Rightarrow> (Inl DecodeError, s0)
         | Some (Some img) \<Rightarrow>
             let content_hash = compute_pil_hash env img;
                 (existing_ref, s1) = find_existing_by_hash_or_scan env content_hash ''image'' s0
             in if usable_ref env (files s1) existing_ref
                then (Inr existing_ref, s1)
                else
                  let new_filename = generate_base_media_filename uid ''.jpg'';
                      abs_path = get_base_image_path env new_filename
                  in (case pil_to_jpg env (files s1) img abs_path JPEG_QUALITY_FULL of
                        (Inl e, fs2) \<Rightarrow> (Inl e, s1\<lparr>files := fs2\<rparr>)
                      | (Inr written, fs2) \<Rightarrow>
                          let ref = ''base_images/'' @ new_filename
                          in (Inr (Some ref),
                              register_media env content_hash ref ''image''
                                (s1\<lparr>files := fs2\<rparr>))))"

definition attach_video ::
    "env \<Rightarrow> string \<Rightarrow> (bytes \<times> string option) option \<Rightarrow> bytes option \<Rightarrow> string option
       \<Rightarrow> store \<Rightarrow> (error + string option) \<times> store" where
  "attach_video env uid uploaded_file uploaded_bytes uploaded_filename s =
     (let s0 = s\<lparr>files := ensure_media_dirs env (files s)\<rparr>;
          input =
            (case uploaded_file of
               Some (data, name) \<Rightarrow>
                 Some (data, case name of Some n \<Rightarrow> n | None \<Rightarrow> ''video.mp4'')
             | None \<Rightarrow>
                 (case uploaded_bytes of
                    Some data \<Rightarrow>
                      Some (data, if truthy uploaded_filename then the uploaded_filename
                                  else ''video.mp4'')
                  | None \<Rightarrow> None))
      in case input of
           None \<Rightarrow> (Inr None, s0)
         | Some (data, filename) \<Rightarrow>
             let content_hash = compute_file_hash env data;
                 (existing_ref, s1) = find_existing_by_hash_or_scan env content_hash ''video'' s0
             in if usable_ref env (files s1) existing_ref
                then (Inr existing_ref, s1)
                else
                  let ext0 = snd (splitext filename);
                      ext = (if ext0 \<noteq> [] then lower ext0 else ''.mp4'');
                      vid_filename = generate_base_video_filename uid ext;
                      abs_path = get_base_video_path env vid_filename
                  in if write_ok env abs_path then
                       (let ref = ''base_videos/'' @ vid_filename
                        in (Inr (Some ref),
                            register_media env content_hash ref ''video''
                              (s1\<lparr>files := write_file (files s1) abs_path data\<rparr>)))
                     else (Inl StorageError, s1))"

text \<open>
  \<open>attach_media\<close> called for an upload (\<open>existing_ref\<close> not given): case 2 of the
  source.
\<close>

definition attach_media ::
    "env \<Rightarrow> string \<Rightarrow> (bytes \<times> string option) option \<Rightarrow> bytes option \<Rightarrow> string option \<Rightarrow> image option
       \<Rightarrow> string \<Rightarrow> store \<Rightarrow> (error + string option) \<times> store" where
  "attach_media env uid uploaded_file uploaded_bytes uploaded_filename pil_image media_type s =
     (let s0 = s\<lparr>files := ensure_media_dirs env (files s)\<rparr>
      in if media_type = ''video''
         then attach_video env uid uploaded_file uploaded_bytes uploaded_filename s0
         else attach_image env uid uploaded_file uploaded_bytes uploaded_filename pil_image s0)"

text \<open>
  \<open>attach_media(uploaded_bytes=c, uploaded_filename=name, media_type=kind)\<close> called once
  for each drawn \<open>uid\<close>, one call after the other: the results in call order and the
  final store.
\<close>

fun attach_repeatedly ::
    "env \<Rightarrow> string list \<Rightarrow> bytes \<Rightarrow> string option \<Rightarrow> string \<Rightarrow> store
       \<Rightarrow> (error + string option) list \<times> store" where
  "attach_repeatedly env [] c name kind s = ([], s)"
| "attach_repeatedly env (uid # uids) c name kind s =
     (let (r, s1) = attach_media env uid None (Some c) name None kind s;
          (rs, s2) = attach_repeatedly env uids c name kind s1
      in (r # rs, s2))"

section \<open>An example environment\<close>

text \<open>
  A small concrete environment on which the model is evaluated. The digest is a
  64-character hexadecimal string of the first 32 bytes (zero padded), standing in for
  SHA-256; an encoded image is a two-byte format mark, the width and height as two
  bytes each, and the samples; decoding reads it back; resizing keeps the leading
  samples. The disk accepts every write and every move.
\<close>

definition hexdigit :: "nat \<Rightarrow> char" where
  "hexdigit n = ''0123456789abcdef'' ! (n mod 16)"

definition demo_digest :: "bytes \<Rightarrow> string" where
  "demo_digest b =
     take 64 (concat (map (\<lambda>w. [hexdigit (unat w div 16), hexdigit (unat w)]) b)
              @ replicate 64 CHR ''0'')"

definition demo_encode :: "bytes \<Rightarrow> image \<Rightarrow> bytes" where
  "demo_encode mark img =
     (let (w, h) = img_size img
      in mark @ [of_nat (w div 256), of_nat w, of_nat (h div 256), of_nat h]
         @ map of_nat (img_data img))"

definition demo_decode :: "bytes \<Rightarrow> image option" where
  "demo_decode b =
     (case b of
        m1 # m2 # wh # wl # hh # hl # d \<Rightarrow>
          if (m1, m2) = (0xFF, 0xD8) \<or> (m1, m2) = (0x89, 0x50) then
            Some \<lparr>img_mode = (if m1 = 0xFF then ''RGB'' else ''RGBA''),
                  img_size = (unat wh * 256 + unat wl, unat hh * 256 + unat hl),
                  img_data = map unat d\<rparr>
          else None
      | _ \<Rightarrow> None)"

definition demo_env :: env where
  "demo_env =
     \<lparr>base_dir = ''/srv'',
      sha256_hexdigest = demo_digest,
      image_open = demo_decode,
      heif_open = (\<lambda>b. None),
      convert = (\<lambda>m img. img\<lparr>img_mode := m\<rparr>),
      resize_lanczos = (\<lambda>img (w, h). if w = 0 \<or> h = 0 then None
                          else Some (img\<lparr>img_size := (w, h), img_data := take (w * h) (img_data img)\<rparr>)),
      save_jpeg = (\<lambda>q opt. demo_encode [0xFF, 0xD8]),
      save_png = demo_encode [0x89, 0x50],
      write_ok = (\<lambda>p. True),
      move_ok = (\<lambda>a b. True)\<rparr>"

text \<open>The same environment with a disk that refuses every write.\<close>

definition full_disk_env :: env where
  "full_disk_env = demo_env\<lparr>write_ok := (\<lambda>p. False)\<rparr>"


definition blank_record :: image_record where
  "blank_record =
     \<lparr>audit_id = None, nr = None, base_image = None, overlay = None, after_base = None,
      after_overlay = None, raw = None, edited = None, after_raw = None, after_edited = None,
      ctx_list = [], add_fehler_list = [], add_after_list = [], videos = []\<rparr>"

definition demo_index :: index where
  "demo_index =
     \<lparr>project_id = Some ''P'',
      images =
        [blank_record\<lparr>audit_id := Some ''A'', nr := Some ''001'',
                      base_image := Some ''base_images/MEDIA_IMG__0a.jpg'',
                      raw := Some ''base_images/MEDIA_IMG__0a.jpg''\<rparr>,
         blank_record\<lparr>audit_id := Some ''A'', nr := Some ''002'',
                      base_image := Some ''base_images/MEDIA_IMG__0a.jpg'',
                      overlay := Some ''overlays/CANVAS__a.png''\<rparr>]\<rparr>"

definition demo_files :: filesystem where
  "demo_files =
     [(''/srv/GlobalMedia/base_images/MEDIA_IMG__0a.jpg'', File [0xFF, 0xD8, 0, 1, 0, 1, 7]),
      (''/srv/GlobalMedia/overlays/CANVAS__a.png'', File [0x89, 0x50, 0, 1, 0, 1, 9])]"

section \<open>Auxiliary notions\<close>

text \<open>
  A field value \<open>v\<close> counts as a use of the normalised reference \<open>n\<close>; a record uses
  \<open>n\<close> when one of the values it contributes to the scan does.
\<close>

definition hit :: "string \<Rightarrow> string option \<Rightarrow> bool" where
  "hit n v = (truthy v \<and> replace_bslash (the v) = n)"

definition rec_hit :: "string \<Rightarrow> image_record \<Rightarrow> bool" where
  "rec_hit n r = (\<exists>v \<in> set (record_fields r). hit n v)"

text \<open>
  The five directories of the media root exist; the nodes of a filesystem that are not
  directories.
\<close>

definition media_dirs_exist :: "env \<Rightarrow> filesystem \<Rightarrow> bool" where
  "media_dirs_exist env fs =
     list_all (\<lambda>p. p = [] \<or> path_exists fs p)
       [MEDIA_ROOT env, MEDIA_BASE_IMAGES env, MEDIA_BASE_VIDEOS env, MEDIA_OVERLAYS env,
        MEDIA_IMAGES_EDITED env]"

definition stored_files :: "filesystem \<Rightarrow> (string \<times> node) list" where
  "stored_files fs = filter (\<lambda>(k, v). v \<noteq> Dir) fs"

text \<open>The registry that \<open>_load_media_registry\<close> reads from a registry document.\<close>

definition doc_registry :: "registry_file \<Rightarrow> registry" where
  "doc_registry d =
     (case d of Document reg \<Rightarrow> reg | Unreadable \<Rightarrow> empty_registry | Absent \<Rightarrow> empty_registry)"

text \<open>
  The store holds the content with hash \<open>h\<close> under \<open>ref\<close>: the directories exist, the
  registry document maps \<open>h\<close> to \<open>ref\<close>, and \<open>ref\<close> resolves to an existing path.
\<close>

definition attached :: "env \<Rightarrow> string \<Rightarrow> string \<Rightarrow> string \<Rightarrow> store \<Rightarrow> bool" where
  "attached env media_type h ref s =
     (media_dirs_exist env (files s) \<and> ref \<noteq> [] \<and> resolves_to_existing env (files s) ref
      \<and> (\<exists>reg. registry_doc s = Document reg \<and> map_of (reg_section media_type reg) h = Some ref))"

text \<open>
  The image that \<open>pil_to_jpg\<close> encodes: the RGB image, downscaled to
  \<open>MAX_IMAGE_WIDTH\<close> when it is wider and the resize does not raise.
\<close>

definition stored_image :: "env \<Rightarrow> image \<Rightarrow> image" where
  "stored_image env img0 =
     (let img1 = ensure_rgb env img0
      in if MAX_IMAGE_WIDTH \<noteq> 0 \<and> fst (img_size img1) > MAX_IMAGE_WIDTH then
           (case downscale_to_width env img1 MAX_IMAGE_WIDTH of
              Some small \<Rightarrow> small
            | None \<Rightarrow> img1)
         else img1)"

text \<open>\<open>hashlib.sha256(data).hexdigest()\<close> is a string of 64 characters.\<close>

definition valid_digest :: "env \<Rightarrow> bool" where
  "valid_digest env = (\<forall>b. length (sha256_hexdigest env b) = 64)"

section \<open>Properties of the string functions\<close>

lemma startswith_iff: "startswith s p \<longleftrightarrow> (\<exists>t. s = p @ t)"
  by (induction s p rule: startswith.induct) auto

lemma str_in_iff: "str_in sub s \<longleftrightarrow> (\<exists>a b. s = a @ sub @ b)"
proof (induction s)
  case Nil
  then show ?case by auto
next
  case (Cons c cs)
  show ?case
  proof
    assume "str_in sub (c # cs)"
    then consider "startswith (c # cs) sub" | "str_in sub cs" by auto
    then show "\<exists>a b. c # cs = a @ sub @ b"
    proof cases
      case 1
      then obtain t where "c # cs = sub @ t" by (auto simp: startswith_iff)
      then have "c # cs = [] @ sub @ t" by simp
      then show ?thesis by blast
    next
      case 2
      then obtain a b where "cs = a @ sub @ b" using Cons.IH by auto
      then have "c # cs = (c # a) @ sub @ b" by simp
      then show ?thesis by blast
    qed
  next
    assume "\<exists>a b. c # cs = a @ sub @ b"
    then obtain a b where ab: "c # cs = a @ sub @ b" by auto
    show "str_in sub (c # cs)"
    proof (cases a)
      case Nil
      then have "startswith (c # cs) sub" using ab by (auto simp: startswith_iff)
      then show ?thesis by simp
    next
      case (Cons x xs)
      then have "cs = xs @ sub @ b" using ab by simp
      then have "str_in sub cs" using Cons.IH by blast
      then show ?thesis by simp
    qed
  qed
qed

section \<open>Classification of references\<close>

text \<open>
  C6 (as amended). A reference classifies as a base image exactly when it starts with the
  file-name prefix \<open>MEDIA_IMG__\<close>, or starts with the directory name \<open>base_images\<close>
  followed by a forward slash or by a backslash, or contains that directory name between
  two forward slashes or between two backslashes; likewise for base videos
  (\<open>MEDIA_VID__\<close>, \<open>base_videos\<close>) and overlays (\<open>CANVAS__\<close>, \<open>overlays\<close>).
  The match compares characters exactly, so it is sensitive to letter case.
\<close>

theorem classification_by_prefix_or_directory:
  "(is_base_image_ref r \<longleftrightarrow>
      (\<exists>t. r = ''MEDIA_IMG__'' @ t) \<or>
      (\<exists>t. r = ''base_images/'' @ t) \<or> (\<exists>t. r = ''base_images'' @ bslash # t) \<or>
      (\<exists>a t. r = a @ ''/base_images/'' @ t) \<or>
      (\<exists>a t. r = a @ bslash # ''base_images'' @ bslash # t)) \<and>
   (is_base_video_ref r \<longleftrightarrow>
      (\<exists>t. r = ''MEDIA_VID__'' @ t) \<or>
      (\<exists>t. r = ''base_videos/'' @ t) \<or> (\<exists>t. r = ''base_videos'' @ bslash # t) \<or>
      (\<exists>a t. r = a @ ''/base_videos/'' @ t) \<or>
      (\<exists>a t. r = a @ bslash # ''base_videos'' @ bslash # t)) \<and>
   (is_overlay_ref r \<longleftrightarrow>
      (\<exists>t. r = ''CANVAS__'' @ t) \<or>
      (\<exists>t. r = ''overlays/'' @ t) \<or> (\<exists>t. r = ''overlays'' @ bslash # t) \<or>
      (\<exists>a t. r = a @ ''/overlays/'' @ t) \<or>
      (\<exists>a t. r = a @ bslash # ''overlays'' @ bslash # t))"
  unfolding is_base_image_ref_def is_base_video_ref_def is_overlay_ref_def
    startswith_iff str_in_iff
  by auto

theorem classification_by_prefix_or_directory_witness:
  "is_base_image_ref (''base_images'' @ bslash # ''MEDIA_IMG__0a.jpg'')
   \<and> is_base_video_ref (''base_videos/'' @ ''MEDIA_VID__0a.mp4'')
   \<and> is_overlay_ref (''CANVAS__'' @ ''PRJ_P__AUD_A__NR_001__TYPE_FEHLERBILD.png'')"
proof (intro conjI)
  show "is_base_image_ref (''base_images'' @ bslash # ''MEDIA_IMG__0a.jpg'')"
    by (rule iffD2[OF conjunct1[OF classification_by_prefix_or_directory]]) blast
  show "is_base_video_ref (''base_videos/'' @ ''MEDIA_VID__0a.mp4'')"
    by (rule iffD2[OF conjunct1[OF conjunct2[OF classification_by_prefix_or_directory]]]) blast
  show "is_overlay_ref (''CANVAS__'' @ ''PRJ_P__AUD_A__NR_001__TYPE_FEHLERBILD.png'')"
    by (rule iffD2[OF conjunct2[OF conjunct2[OF classification_by_prefix_or_directory]]]) blast
qed

text \<open>
  C6 as stated fails: the references below differ only in letter case and classify
  differently.
\<close>

theorem classification_case_counterexample:
  "lower ''MEDIA_IMG__0a.jpg'' = lower ''media_img__0a.jpg''
   \<and> is_base_image_ref ''MEDIA_IMG__0a.jpg'' \<and> \<not> is_base_image_ref ''media_img__0a.jpg''
   \<and> lower ''Base_Videos/MEDIA_VID__0a.mp4'' = lower ''base_videos/MEDIA_VID__0a.mp4''
   \<and> is_base_video_ref ''base_videos/MEDIA_VID__0a.mp4''
   \<and> \<not> is_base_video_ref ''Base_Videos/MEDIA_VID__0a.mp4''
   \<and> lower ''OVERLAYS/canvas__a.png'' = lower ''overlays/canvas__a.png''
   \<and> is_overlay_ref ''overlays/canvas__a.png'' \<and> \<not> is_overlay_ref ''OVERLAYS/canvas__a.png''"
  by (simp add: is_base_image_ref_def is_base_video_ref_def is_overlay_ref_def bslash_def
        lower_def lower_char_def)

section \<open>Resolution returns existing paths only\<close>

lemma try_path_exists: "try_path fs p = Some q \<Longrightarrow> path_exists fs q"
  by (auto simp: try_path_def split: if_splits)

lemma or_else_Some: "or_else a b = Some x \<Longrightarrow> a = Some x \<or> b = Some x"
  by (auto simp: or_else_def split: option.splits)

lemma resolve_some_exists:
  "resolve_media_path env fs ref pr = Some p \<Longrightarrow> path_exists fs p"
  unfolding resolve_media_path_def
  by (auto split: if_splits option.splits dest!: or_else_Some dest: try_path_exists)

lemma try_path_None: "\<not> path_exists fs p \<Longrightarrow> try_path fs p = None"
  by (simp add: try_path_def)

lemma resolve_none:
  "\<not> isabs ref \<Longrightarrow> \<forall>c \<in> set (candidate_paths env ref pr). \<not> path_exists fs c
     \<Longrightarrow> resolve_media_path env fs ref pr = None"
  unfolding resolve_media_path_def candidate_paths_def
  by (auto simp: try_path_None or_else_def split: option.splits if_splits)

lemma resolve_some_candidate:
  "\<not> isabs ref \<Longrightarrow> resolve_media_path env fs ref pr = Some p \<Longrightarrow> p \<in> set (candidate_paths env ref pr)"
  unfolding resolve_media_path_def candidate_paths_def
  by (auto simp: try_path_def split: option.splits if_splits dest!: or_else_Some)

text \<open>
  C9. Whenever \<open>resolve_media_path\<close> returns a path, that path exists in the filesystem
  at that moment (in the sense of \<open>os.path.exists\<close>). It returns \<open>None\<close> for the empty
  reference, for an absolute path that does not exist, and for a relative reference none
  of whose candidate paths exists.
\<close>

theorem resolve_media_path_existing_only:
  "(resolve_media_path env fs ref1 pr1 = Some p \<longrightarrow> path_exists fs p)
   \<and> resolve_media_path env fs [] pr = None
   \<and> (isabs ref2 \<and> \<not> path_exists fs ref2 \<longrightarrow> resolve_media_path env fs ref2 pr2 = None)
   \<and> (\<not> isabs ref3 \<and> (\<forall>c \<in> set (candidate_paths env ref3 pr3). \<not> path_exists fs c)
        \<longrightarrow> resolve_media_path env fs ref3 pr3 = None)"
proof (intro conjI impI)
  show "path_exists fs p" if "resolve_media_path env fs ref1 pr1 = Some p"
    using that by (rule resolve_some_exists)
  show "resolve_media_path env fs [] pr = None"
    by (simp add: resolve_media_path_def)
  show "resolve_media_path env fs ref2 pr2 = None" if "isabs ref2 \<and> \<not> path_exists fs ref2"
    using that by (auto simp: resolve_media_path_def isabs_def)
  show "resolve_media_path env fs ref3 pr3 = None"
    if "\<not> isabs ref3 \<and> (\<forall>c \<in> set (candidate_paths env ref3 pr3). \<not> path_exists fs c)"
    using that resolve_none by blast
qed

theorem resolve_media_path_existing_only_witness:
  "resolve_media_path demo_env [(''/srv/GlobalMedia/overlays/CANVAS__a.png'', File [1])]
      ''CANVAS__a.png'' None = Some ''/srv/GlobalMedia/overlays/CANVAS__a.png''
   \<and> path_exists [(''/srv/GlobalMedia/overlays/CANVAS__a.png'', File [1])]
        ''/srv/GlobalMedia/overlays/CANVAS__a.png''
   \<and> isabs ''/tmp/gone.jpg''
   \<and> \<not> path_exists [(''/srv/GlobalMedia/overlays/CANVAS__a.png'', File [1])] ''/tmp/gone.jpg''
   \<and> resolve_media_path demo_env [(''/srv/GlobalMedia/overlays/CANVAS__a.png'', File [1])]
        ''/tmp/gone.jpg'' None = None
   \<and> \<not> isabs ''overlays/CANVAS__b.png''
   \<and> list_all (\<lambda>c. \<not> path_exists [(''/srv/GlobalMedia/overlays/CANVAS__a.png'', File [1])] c)
        (candidate_paths demo_env ''overlays/CANVAS__b.png'' (Some ''/prj''))
   \<and> resolve_media_path demo_env [(''/srv/GlobalMedia/overlays/CANVAS__a.png'', File [1])]
        ''overlays/CANVAS__b.png'' (Some ''/prj'') = None"
proof -
  let ?fs = "[(''/srv/GlobalMedia/overlays/CANVAS__a.png'', File [1])]"
  note t = resolve_media_path_existing_only
             [of demo_env ?fs "''CANVAS__a.png''" None
                 "''/srv/GlobalMedia/overlays/CANVAS__a.png''" None
                 "''/tmp/gone.jpg''" None "''overlays/CANVAS__b.png''" "Some ''/prj''"]
  have h1: "resolve_media_path demo_env ?fs ''CANVAS__a.png'' None
              = Some ''/srv/GlobalMedia/overlays/CANVAS__a.png''"
    by code_simp
  have h2: "isabs ''/tmp/gone.jpg'' \<and> \<not> path_exists ?fs ''/tmp/gone.jpg''"
    by code_simp
  have h3': "\<not> isabs ''overlays/CANVAS__b.png''
            \<and> list_all (\<lambda>c. \<not> path_exists ?fs c)
                 (candidate_paths demo_env ''overlays/CANVAS__b.png'' (Some ''/prj''))"
    by code_simp
  then have h3: "\<not> isabs ''overlays/CANVAS__b.png''
            \<and> (\<forall>c \<in> set (candidate_paths demo_env ''overlays/CANVAS__b.png'' (Some ''/prj'')).
                 \<not> path_exists ?fs c)"
    unfolding list_all_iff by blast
  from t h1 have c1: "path_exists ?fs ''/srv/GlobalMedia/overlays/CANVAS__a.png''" by blast
  from t h2 have c2: "resolve_media_path demo_env ?fs ''/tmp/gone.jpg'' None = None" by blast
  from t h3 have c3: "resolve_media_path demo_env ?fs ''overlays/CANVAS__b.png'' (Some ''/prj'') = None"
    by blast
  from h1 h2 h3' c1 c2 c3 show ?thesis by blast
qed

section \<open>Shared base media are protected\<close>

lemma count_use_excluding:
  "count_use n True v c = (if hit n v then Inl True else Inr c)"
  by (simp add: count_use_def hit_def)

lemma count_uses_excluding:
  "count_uses n True vs c = (if \<exists>v \<in> set vs. hit n v then Inl True else Inr c)"
  by (induction vs arbitrary: c) (auto simp: count_use_excluding)

lemma count_use_plain:
  "count_use n False v c = (if hit n v then (if c \<ge> 1 then Inl True else Inr (c + 1)) else Inr c)"
  by (auto simp: count_use_def hit_def Let_def)

lemma count_uses_Inl: "count_uses n ex vs c = Inl b \<Longrightarrow> b"
  by (induction vs arbitrary: c)
     (auto simp: count_use_def Let_def split: sum.splits if_splits)

lemma count_uses_Inr_mono: "count_uses n False vs c = Inr c' \<Longrightarrow> c \<le> c'"
proof (induction vs arbitrary: c)
  case Nil
  then show ?case by simp
next
  case (Cons v vs)
  then show ?case
    by (fastforce simp: count_use_plain split: sum.splits if_splits)
qed

lemma count_uses_Inr_hit:
  "count_uses n False vs c = Inr c' \<Longrightarrow> \<exists>v \<in> set vs. hit n v \<Longrightarrow> c < c'"
proof (induction vs arbitrary: c)
  case Nil
  then show ?case by simp
next
  case (Cons v vs)
  show ?case
  proof (cases "hit n v")
    case True
    with Cons.prems(1) have c0: "c = 0" and rest: "count_uses n False vs (c + 1) = Inr c'"
      by (auto simp: count_use_plain split: if_splits)
    from count_uses_Inr_mono[OF rest] show ?thesis by simp
  next
    case False
    with Cons.prems have "count_uses n False vs c = Inr c'" "\<exists>v \<in> set vs. hit n v"
      by (auto simp: count_use_plain)
    then show ?thesis by (rule Cons.IH)
  qed
qed

lemma count_uses_Inr_small:
  "count_uses n False vs c = Inr c' \<Longrightarrow> c \<le> 1 \<Longrightarrow> c' \<le> 1"
proof (induction vs arbitrary: c)
  case Nil
  then show ?case by simp
next
  case (Cons v vs)
  then show ?case
    by (fastforce simp: count_use_plain split: sum.splits if_splits)
qed

lemma scan_records_excluding:
  "\<exists>m < length rs. i0 + m \<noteq> k \<and> rec_hit n (rs ! m)
     \<Longrightarrow> scan_records n (Some k) i0 rs c"
proof (induction rs arbitrary: i0 c)
  case Nil
  then show ?case by simp
next
  case (Cons r rs)
  then obtain m where m: "m < length (r # rs)" "i0 + m \<noteq> k" "rec_hit n ((r # rs) ! m)"
    by blast
  show ?case
  proof (cases "i0 = k")
    case True
    with m have "m \<noteq> 0" by auto
    then obtain m' where m': "m = Suc m'" by (cases m) auto
    with m have "\<exists>m < length rs. (i0 + 1) + m \<noteq> k \<and> rec_hit n (rs ! m)" by auto
    from Cons.IH[OF this] True show ?thesis by simp
  next
    case False
    show ?thesis
    proof (cases "rec_hit n r")
      case True
      then show ?thesis using False by (simp add: count_uses_excluding rec_hit_def)
    next
      case nohit: False
      with m have "m \<noteq> 0" by (cases m) auto
      then obtain m' where m': "m = Suc m'" by (cases m) auto
      with m have "\<exists>m < length rs. (i0 + 1) + m \<noteq> k \<and> rec_hit n (rs ! m)" by auto
      from Cons.IH[OF this] nohit False show ?thesis
        by (simp add: count_uses_excluding rec_hit_def)
    qed
  qed
qed

lemma count_uses_counted_hit:
  "1 \<le> c \<Longrightarrow> \<exists>v \<in> set vs. hit n v \<Longrightarrow> count_uses n False vs c = Inl True"
  by (induction vs arbitrary: c) (auto simp: count_use_plain)

lemma scan_records_counted:
  "1 \<le> c \<Longrightarrow> \<exists>r \<in> set rs. rec_hit n r \<Longrightarrow> scan_records n None i0 rs c"
proof (induction rs arbitrary: i0 c)
  case Nil
  then show ?case by simp
next
  case (Cons r rs)
  show ?case
  proof (cases "count_uses n False (record_fields r) c")
    case (Inl b)
    then show ?thesis using count_uses_Inl[OF Inl] by simp
  next
    case (Inr c')
    have le: "c \<le> c'" by (rule count_uses_Inr_mono[OF Inr])
    have "\<not> rec_hit n r"
      using count_uses_counted_hit[OF Cons.prems(1), of "record_fields r" n] Inr
      by (auto simp: rec_hit_def)
    with Cons.prems have "\<exists>r \<in> set rs. rec_hit n r" by auto
    moreover have "1 \<le> c'" using le Cons.prems(1) by simp
    ultimately have "scan_records n None (i0 + 1) rs c'" by (rule Cons.IH[rotated])
    then show ?thesis using Inr by simp
  qed
qed

lemma scan_records_two:
  "\<exists>a b. a < b \<and> b < length rs \<and> rec_hit n (rs ! a) \<and> rec_hit n (rs ! b)
     \<Longrightarrow> \<forall>c. scan_records n None i0 rs c"
proof (induction rs arbitrary: i0)
  case Nil
  then show ?case by simp
next
  case (Cons r rs)
  then obtain a b where ab: "a < b" "b < length (r # rs)" "rec_hit n ((r # rs) ! a)"
      "rec_hit n ((r # rs) ! b)" by blast
  then obtain b' where b': "b = Suc b'" by (cases b) auto
  show ?case
  proof
    fix c
    show "scan_records n None i0 (r # rs) c"
    proof (cases "count_uses n False (record_fields r) c")
      case (Inl t)
      then show ?thesis using count_uses_Inl[OF Inl] by simp
    next
      case (Inr c')
      show ?thesis
      proof (cases a)
        case 0
        with ab have "rec_hit n r" by simp
        then have "c < c'" using count_uses_Inr_hit[OF Inr] by (simp add: rec_hit_def)
        then have "1 \<le> c'" by simp
        moreover have "\<exists>r \<in> set rs. rec_hit n r"
          using ab b' by (auto intro!: bexI[of _ "rs ! b'"])
        ultimately have "scan_records n None (i0 + 1) rs c'" by (rule scan_records_counted)
        then show ?thesis using Inr by simp
      next
        case (Suc a')
        with ab b' have "\<exists>a b. a < b \<and> b < length rs \<and> rec_hit n (rs ! a) \<and> rec_hit n (rs ! b)"
          by (intro exI[of _ a'] exI[of _ b']) auto
        from Cons.IH[OF this] show ?thesis using Inr by simp
      qed
    qed
  qed
qed

lemma is_media_shared_two_records:
  assumes "i < length (images idx)" "j < length (images idx)" "i \<noteq> j"
    and "ref \<noteq> []" "\<not> is_overlay_ref ref"
    and "Some ref \<in> set (record_fields (images idx ! i))"
    and "Some ref \<in> set (record_fields (images idx ! j))"
  shows "is_media_shared idx ref x"
proof -
  let ?n = "replace_bslash ref"
  have hi: "rec_hit ?n (images idx ! i)" and hj: "rec_hit ?n (images idx ! j)"
    using assms(4,6,7) by (auto simp: rec_hit_def hit_def truthy_def intro!: bexI[of _ "Some ref"])
  have "scan_records ?n x 0 (images idx) 0"
  proof (cases x)
    case None
    have "\<exists>a b. a < b \<and> b < length (images idx) \<and> rec_hit ?n (images idx ! a)
            \<and> rec_hit ?n (images idx ! b)"
    proof (cases "i < j")
      case True
      then show ?thesis using assms(2) hi hj by blast
    next
      case False
      then have "j < i" using assms(3) by simp
      then show ?thesis using assms(1) hi hj by blast
    qed
    then show ?thesis unfolding None using scan_records_two by blast
  next
    case (Some k)
    have "\<exists>m < length (images idx). 0 + m \<noteq> k \<and> rec_hit ?n (images idx ! m)"
    proof (cases "i = k")
      case True
      then have "j \<noteq> k" using assms(3) by simp
      then show ?thesis using assms(2) hj by auto
    next
      case False
      then show ?thesis using assms(1) hi by auto
    qed
    then show ?thesis unfolding Some by (rule scan_records_excluding)
  qed
  then show ?thesis using assms(4,5) by (simp add: is_media_shared_def)
qed

text \<open>
  C4. If two distinct records of the index hold the same non-overlay reference in one of
  their media fields, \<open>is_media_shared\<close> is true whichever record is excluded (and also
  when none is), and \<open>safe_delete_global_media\<close> returns false and leaves the
  filesystem as it was. For an overlay reference \<open>is_media_shared\<close> is false for every
  index.
\<close>

theorem shared_base_media_protected:
  "(i < length (images idx) \<and> j < length (images idx) \<and> i \<noteq> j
      \<and> ref \<noteq> [] \<and> \<not> is_overlay_ref ref
      \<and> Some ref \<in> set (record_fields (images idx ! i))
      \<and> Some ref \<in> set (record_fields (images idx ! j))
    \<longrightarrow> is_media_shared idx ref (Some i) \<and> is_media_shared idx ref (Some j)
        \<and> is_media_shared idx ref x
        \<and> safe_delete_global_media env fs idx ref x = (False, fs))
   \<and> (is_overlay_ref oref \<longrightarrow> \<not> is_media_shared idx2 oref x2)"
proof (intro conjI impI)
  assume a: "i < length (images idx) \<and> j < length (images idx) \<and> i \<noteq> j
      \<and> ref \<noteq> [] \<and> \<not> is_overlay_ref ref
      \<and> Some ref \<in> set (record_fields (images idx ! i))
      \<and> Some ref \<in> set (record_fields (images idx ! j))"
  then have sh: "is_media_shared idx ref y" for y
    using is_media_shared_two_records[of i idx j ref y] by blast
  show "is_media_shared idx ref (Some i)" "is_media_shared idx ref (Some j)"
      "is_media_shared idx ref x"
    by (rule sh)+
  show "safe_delete_global_media env fs idx ref x = (False, fs)"
    using a sh[of x] by (simp add: safe_delete_global_media_def)
next
  assume "is_overlay_ref oref"
  then show "\<not> is_media_shared idx2 oref x2" by (simp add: is_media_shared_def)
qed

theorem shared_base_media_protected_witness:
  "0 < length (images demo_index) \<and> 1 < length (images demo_index) \<and> (0::nat) \<noteq> 1
   \<and> ''base_images/MEDIA_IMG__0a.jpg'' \<noteq> [] \<and> \<not> is_overlay_ref ''base_images/MEDIA_IMG__0a.jpg''
   \<and> Some ''base_images/MEDIA_IMG__0a.jpg'' \<in> set (record_fields (images demo_index ! 0))
   \<and> Some ''base_images/MEDIA_IMG__0a.jpg'' \<in> set (record_fields (images demo_index ! 1))
   \<and> is_media_shared demo_index ''base_images/MEDIA_IMG__0a.jpg'' (Some 0)
   \<and> is_media_shared demo_index ''base_images/MEDIA_IMG__0a.jpg'' (Some 1)
   \<and> safe_delete_global_media demo_env demo_files demo_index ''base_images/MEDIA_IMG__0a.jpg''
        (Some 1) = (False, demo_files)
   \<and> is_overlay_ref ''overlays/CANVAS__a.png''
   \<and> \<not> is_media_shared demo_index ''overlays/CANVAS__a.png'' None"
proof -
  note t = shared_base_media_protected
             [of 0 demo_index 1 "''base_images/MEDIA_IMG__0a.jpg''" "Some 1" demo_env demo_files
                 "''overlays/CANVAS__a.png''" demo_index None]
  have h1: "0 < length (images demo_index) \<and> 1 < length (images demo_index) \<and> (0::nat) \<noteq> 1
     \<and> ''base_images/MEDIA_IMG__0a.jpg'' \<noteq> [] \<and> \<not> is_overlay_ref ''base_images/MEDIA_IMG__0a.jpg''
     \<and> Some ''base_images/MEDIA_IMG__0a.jpg'' \<in> set (record_fields (images demo_index ! 0))
     \<and> Some ''base_images/MEDIA_IMG__0a.jpg'' \<in> set (record_fields (images demo_index ! 1))"
    by code_simp
  have h2: "is_overlay_ref ''overlays/CANVAS__a.png''" by code_simp
  from t h1 have c1: "is_media_shared demo_index ''base_images/MEDIA_IMG__0a.jpg'' (Some 0)
     \<and> is_media_shared demo_index ''base_images/MEDIA_IMG__0a.jpg'' (Some 1)
     \<and> safe_delete_global_media demo_env demo_files demo_index ''base_images/MEDIA_IMG__0a.jpg''
          (Some 1) = (False, demo_files)"
    by blast
  from t h2 have c2: "\<not> is_media_shared demo_index ''overlays/CANVAS__a.png'' None" by blast
  from h1 h2 c1 c2 show ?thesis by blast
qed

section \<open>Clearing overlays never removes other media\<close>





section \<open>Properties of the filesystem operations\<close>

lemma path_exists_update:
  "path_exists (AList.update k v fs) p \<longleftrightarrow> normpath p = k \<or> path_exists fs p"
  by (auto simp: path_exists_def node_at_def update_conv')

lemma path_exists_makedirs:
  "path_exists (makedirs fs q) p \<longleftrightarrow> normpath p = normpath q \<or> path_exists fs p"
  by (simp add: makedirs_def path_exists_update)

lemma path_exists_write_file:
  "path_exists (write_file fs q b) p \<longleftrightarrow> normpath p = normpath q \<or> path_exists fs p"
  by (simp add: write_file_def path_exists_update)

lemma ensure_dirs_exist_mono:
  "path_exists fs p \<Longrightarrow> path_exists (ensure_dirs_exist fs ps) p"
  by (induction ps arbitrary: fs) (auto simp: path_exists_makedirs)

lemma ensure_dirs_exist_all:
  "p \<in> set ps \<Longrightarrow> p \<noteq> [] \<Longrightarrow> path_exists (ensure_dirs_exist fs ps) p"
proof (induction ps arbitrary: fs)
  case Nil
  then show ?case by simp
next
  case (Cons q ps)
  show ?case
  proof (cases "p = q")
    case True
    have "path_exists (if q \<noteq> [] \<and> \<not> path_exists fs q then makedirs fs q else fs) p"
      using True Cons.prems(2) by (simp add: path_exists_makedirs)
    then show ?thesis by (simp add: ensure_dirs_exist_mono)
  next
    case False
    then show ?thesis using Cons by simp
  qed
qed

lemma ensure_dirs_exist_id:
  "list_all (\<lambda>p. p = [] \<or> path_exists fs p) ps \<Longrightarrow> ensure_dirs_exist fs ps = fs"
  by (induction ps) auto

lemma ensure_dirs_exist_ready:
  "list_all (\<lambda>p. p = [] \<or> path_exists (ensure_dirs_exist fs ps) p) ps"
  unfolding list_all_iff using ensure_dirs_exist_all by blast

lemma ensure_media_dirs_ready: "media_dirs_exist env (ensure_media_dirs env fs)"
  unfolding media_dirs_exist_def ensure_media_dirs_def by (rule ensure_dirs_exist_ready)

lemma ensure_media_dirs_id: "media_dirs_exist env fs \<Longrightarrow> ensure_media_dirs env fs = fs"
  unfolding media_dirs_exist_def ensure_media_dirs_def by (rule ensure_dirs_exist_id)

lemma media_dirs_exist_mono:
  "media_dirs_exist env fs \<Longrightarrow> (\<And>p. path_exists fs p \<Longrightarrow> path_exists fs' p)
     \<Longrightarrow> media_dirs_exist env fs'"
  unfolding media_dirs_exist_def list_all_iff by auto

lemma stored_files_update_le:
  "length (stored_files (AList.update k v fs)) \<le> Suc (length (stored_files fs))"
  by (induction fs) (auto simp: stored_files_def)

lemma stored_files_update_Dir:
  "map_of fs k = None \<Longrightarrow> stored_files (AList.update k Dir fs) = stored_files fs"
  by (induction fs) (auto simp: stored_files_def)

lemma stored_files_ensure_dirs:
  "stored_files (ensure_dirs_exist fs ps) = stored_files fs"
  by (induction ps arbitrary: fs)
     (auto simp: makedirs_def path_exists_def node_at_def stored_files_update_Dir)

lemma stored_files_ensure_media_dirs:
  "stored_files (ensure_media_dirs env fs) = stored_files fs"
  by (simp only: ensure_media_dirs_def stored_files_ensure_dirs)

lemma endswith_snoc: "endswith (x @ [c]) [d] \<longleftrightarrow> c = d"
  by (simp add: endswith_def)

lemma path_join_plain:
  "a \<noteq> [] \<Longrightarrow> \<not> endswith a ''/'' \<Longrightarrow> \<not> startswith b ''/'' \<Longrightarrow> path_join a b = a @ ''/'' @ b"
  by (simp add: path_join_def)

lemma path_join_suffix: "\<exists>x. path_join a b = x @ b"
  unfolding path_join_def by (metis append.assoc append_Nil)

lemma MEDIA_ROOT_plain: "MEDIA_ROOT env \<noteq> [] \<and> \<not> endswith (MEDIA_ROOT env) ''/''"
proof -
  obtain x where x: "MEDIA_ROOT env = x @ ''GlobalMedia''"
    unfolding MEDIA_ROOT_def using path_join_suffix by blast
  show ?thesis unfolding x by (simp add: endswith_def)
qed

lemma startswith_slash_Cons: "startswith (c # cs) ''/'' \<longleftrightarrow> c = CHR ''/''"
  by simp

lemma media_subdir_path:
  assumes "d \<noteq> []" "\<not> startswith d ''/''" "\<not> endswith d ''/''" "\<not> startswith fn ''/''"
  shows "path_join (path_join (MEDIA_ROOT env) d) fn = MEDIA_ROOT env @ ''/'' @ d @ ''/'' @ fn"
    and "path_join (MEDIA_ROOT env) (d @ ''/'' @ fn) = MEDIA_ROOT env @ ''/'' @ d @ ''/'' @ fn"
proof -
  have r: "MEDIA_ROOT env \<noteq> []" "\<not> endswith (MEDIA_ROOT env) ''/''"
    using MEDIA_ROOT_plain by auto
  have j: "path_join (MEDIA_ROOT env) d = MEDIA_ROOT env @ ''/'' @ d"
    using r assms(2) by (rule path_join_plain)
  have e: "\<not> endswith (MEDIA_ROOT env @ ''/'' @ d) ''/''"
    using assms(1,3) by (cases d rule: rev_cases) (auto simp: endswith_def)
  show "path_join (path_join (MEDIA_ROOT env) d) fn = MEDIA_ROOT env @ ''/'' @ d @ ''/'' @ fn"
    unfolding j using path_join_plain[OF _ e assms(4)] by simp
  have s: "\<not> startswith (d @ ''/'' @ fn) ''/''"
    using assms(1,2) by (cases d) auto
  show "path_join (MEDIA_ROOT env) (d @ ''/'' @ fn) = MEDIA_ROOT env @ ''/'' @ d @ ''/'' @ fn"
    using path_join_plain[OF r s] by simp
qed

lemma base_image_path_eq:
  "\<not> startswith fn ''/'' \<Longrightarrow>
     get_base_image_path env fn = path_join (MEDIA_ROOT env) (''base_images/'' @ fn)"
  using media_subdir_path[of "''base_images''" fn env]
  by (simp add: get_base_image_path_def MEDIA_BASE_IMAGES_def endswith_def)

lemma base_video_path_eq:
  "\<not> startswith fn ''/'' \<Longrightarrow>
     get_base_video_path env fn = path_join (MEDIA_ROOT env) (''base_videos/'' @ fn)"
  using media_subdir_path[of "''base_videos''" fn env]
  by (simp add: get_base_video_path_def MEDIA_BASE_VIDEOS_def endswith_def)

lemma overlay_path_eq:
  "\<not> startswith fn ''/'' \<Longrightarrow>
     get_overlay_path env fn = path_join (MEDIA_ROOT env) (''overlays/'' @ fn)"
  using media_subdir_path[of "''overlays''" fn env]
  by (simp add: get_overlay_path_def MEDIA_OVERLAYS_def endswith_def)

lemma path_join_nonempty: "b \<noteq> [] \<Longrightarrow> path_join a b \<noteq> []"
  by (auto simp: path_join_def)

lemma resolve_under_media_root:
  assumes "path_exists fs (path_join (MEDIA_ROOT env) ref)"
    and "ref \<noteq> []" "\<not> isabs ref"
    and "\<not> startswith ref ''MEDIA_IMG__''" "\<not> startswith ref ''MEDIA_VID__''"
      "\<not> startswith ref ''CANVAS__''"
  shows "resolve_media_path env fs ref pr = Some (path_join (MEDIA_ROOT env) ref)"
  using assms by (simp add: resolve_media_path_def try_path_def or_else_def)

lemma resolves_under_media_root:
  assumes "path_exists fs (path_join (MEDIA_ROOT env) ref)"
    and "ref \<noteq> []" "\<not> isabs ref"
    and "\<not> startswith ref ''MEDIA_IMG__''" "\<not> startswith ref ''MEDIA_VID__''"
      "\<not> startswith ref ''CANVAS__''"
  shows "resolves_to_existing env fs ref"
  using resolve_under_media_root[OF assms] assms(1,2)
  by (simp add: resolves_to_existing_def path_join_nonempty)

section \<open>The registry on a prepared store\<close>

lemma usable_ref_iff:
  "usable_ref env fs x \<longleftrightarrow> truthy x \<and> resolves_to_existing env fs (the x)"
  by (cases x) (auto simp: usable_ref_def truthy_def)

lemma store_files_same [simp]: "s\<lparr>files := files s\<rparr> = s"
  by simp

lemma load_ready:
  "media_dirs_exist env (files s)
     \<Longrightarrow> load_media_registry env s = (doc_registry (registry_doc s), s)"
  by (simp add: load_media_registry_def ensure_media_dirs_id doc_registry_def
        split: registry_file.splits)

lemma save_ready:
  "media_dirs_exist env (files s)
     \<Longrightarrow> save_media_registry env reg s = s\<lparr>registry_doc := Document reg\<rparr>"
  by (simp add: save_media_registry_def ensure_media_dirs_id)

lemma scan_ready:
  "media_dirs_exist env (files s) \<Longrightarrow> \<exists>reg'. scan_and_register env media_type s reg = (reg', s)"
  by (simp add: scan_and_register_def scan_base_images_and_register_def
        scan_base_videos_and_register_def ensure_media_dirs_id)

lemma reg_section_empty [simp]: "reg_section media_type empty_registry = []"
  by (simp add: reg_section_def empty_registry_def)

lemma ensure_populated_ready:
  assumes "media_dirs_exist env (files s)"
    and "ensure_registry_is_populated env media_type s = (reg, s')"
  shows "files s' = files s \<and> registry_doc s' = Document reg"
proof (cases "registry_doc s = Absent \<or> reg_section media_type (doc_registry (registry_doc s)) = []")
  case True
  obtain reg2 where sc: "scan_and_register env media_type s (doc_registry (registry_doc s)) = (reg2, s)"
    using scan_ready[OF assms(1)] by blast
  from assms True sc show ?thesis
    by (auto simp: ensure_registry_is_populated_def load_ready save_ready)
next
  case False
  then have "registry_doc s = Document (doc_registry (registry_doc s))"
    by (cases "registry_doc s") (auto simp: doc_registry_def)
  with assms False show ?thesis
    by (auto simp: ensure_registry_is_populated_def load_ready)
qed

lemma ensure_populated_hit:
  assumes "media_dirs_exist env (files s)" "registry_doc s = Document reg"
    and "reg_section media_type reg \<noteq> []"
  shows "ensure_registry_is_populated env media_type s = (reg, s)"
  using assms by (simp add: ensure_registry_is_populated_def load_ready doc_registry_def)

lemma find_ready:
  assumes "media_dirs_exist env (files s)" "h \<noteq> []"
    and "find_existing_by_hash_or_scan env h media_type s = (r, s')"
  shows "files s' = files s
         \<and> (\<exists>reg. registry_doc s' = Document reg \<and> map_of (reg_section media_type reg) h = r)"
proof -
  obtain reg s1 where e: "ensure_registry_is_populated env media_type s = (reg, s1)"
    by (cases "ensure_registry_is_populated env media_type s")
  from ensure_populated_ready[OF assms(1) e]
  have s1: "files s1 = files s" "registry_doc s1 = Document reg" by auto
  have r1: "media_dirs_exist env (files s1)" using s1 assms(1) by simp
  obtain reg2 where sc: "scan_and_register env media_type s1 reg = (reg2, s1)"
    using scan_ready[OF r1] by blast
  show ?thesis
  proof (cases "truthy (map_of (reg_section media_type reg) h)
                \<and> resolves_to_existing env (files s1) (the (map_of (reg_section media_type reg) h))")
    case True
    with assms(2,3) e have "r = map_of (reg_section media_type reg) h" "s' = s1"
      by (auto simp: find_existing_by_hash_or_scan_def usable_ref_iff)
    with s1 show ?thesis by auto
  next
    case False
    with assms(2,3) e sc have "r = map_of (reg_section media_type reg2) h"
        "s' = s1\<lparr>registry_doc := Document reg2\<rparr>"
      by (auto simp: find_existing_by_hash_or_scan_def usable_ref_iff save_ready[OF r1])
    with s1 show ?thesis by auto
  qed
qed

lemma find_hit:
  assumes "attached env media_type h ref s" "h \<noteq> []"
  shows "find_existing_by_hash_or_scan env h media_type s = (Some ref, s)"
proof -
  from assms(1) obtain reg where a: "media_dirs_exist env (files s)" "ref \<noteq> []"
      "resolves_to_existing env (files s) ref" "registry_doc s = Document reg"
      "map_of (reg_section media_type reg) h = Some ref"
    by (auto simp: attached_def)
  then have "reg_section media_type reg \<noteq> []" by auto
  from ensure_populated_hit[OF a(1) a(4) this] a assms(2) show ?thesis
    by (simp add: find_existing_by_hash_or_scan_def usable_ref_iff truthy_def)
qed

lemma register_ready:
  "media_dirs_exist env (files s)
     \<Longrightarrow> register_media env h ref media_type s
         = s\<lparr>registry_doc := Document (section_put media_type h ref (doc_registry (registry_doc s)))\<rparr>"
  by (simp add: register_media_def load_ready save_ready)

lemma section_put_lookup:
  "map_of (reg_section media_type (section_put media_type h ref reg)) h = Some ref"
  by (simp add: reg_section_def section_put_def update_conv')

section \<open>Attaching a video or an image\<close>

lemma gen_video_prefix: "\<exists>t. generate_base_video_filename uid e = ''MEDIA_VID__'' @ t"
  by (simp add: generate_base_video_filename_def Let_def)

lemma gen_image_jpg: "generate_base_media_filename uid ''.jpg'' = ''MEDIA_IMG__'' @ uid @ ''.jpg''"
  by (simp add: generate_base_media_filename_def Let_def lower_def lower_char_def)

lemma stored_files_write_le:
  "length (stored_files (write_file fs p b)) \<le> Suc (length (stored_files fs))"
  by (simp add: write_file_def stored_files_update_le)

lemma fresh_media_ref_resolves:
  assumes "media_dirs_exist env fs" and "fn = pre @ t" and "pre \<in> {''MEDIA_IMG__'', ''MEDIA_VID__''}"
    and "d \<in> {''base_images'', ''base_videos''}"
    and "path_exists fs' (path_join (path_join (MEDIA_ROOT env) d) fn)"
  shows "resolves_to_existing env fs' (d @ ''/'' @ fn)"
proof -
  have nf: "\<not> startswith fn ''/''" using assms(2,3) by auto
  have dd: "d \<noteq> []" "\<not> startswith d ''/''" "\<not> endswith d ''/''"
    using assms(4) by (auto simp: endswith_def)
  have eq: "path_join (path_join (MEDIA_ROOT env) d) fn = path_join (MEDIA_ROOT env) (d @ ''/'' @ fn)"
    using media_subdir_path[OF dd nf] by simp
  show ?thesis
  proof (rule resolves_under_media_root)
    show "path_exists fs' (path_join (MEDIA_ROOT env) (d @ ''/'' @ fn))"
      using assms(5) eq by simp
  qed (use assms(4) in \<open>auto simp: isabs_def\<close>)
qed

lemma attach_video_post:
  assumes R: "media_dirs_exist env (files s)" and h: "compute_file_hash env c \<noteq> []"
    and a: "attach_video env uid None (Some c) name s = (Inr (Some ref), s1)"
  shows "attached env ''video'' (compute_file_hash env c) ref s1
         \<and> length (stored_files (files s1)) \<le> Suc (length (stored_files (files s)))"
proof -
  let ?h = "compute_file_hash env c"
  obtain ex sA where f: "find_existing_by_hash_or_scan env ?h ''video'' s = (ex, sA)"
    by (cases "find_existing_by_hash_or_scan env ?h ''video'' s")
  from find_ready[OF R h f] obtain regA where sA: "files sA = files s"
      "registry_doc sA = Document regA" "map_of (reg_section ''video'' regA) ?h = ex"
    by auto
  have RA: "media_dirs_exist env (files sA)" using R sA by simp
  show ?thesis
  proof (cases "truthy ex \<and> resolves_to_existing env (files sA) (the ex)")
    case True
    with a f R have "ex = Some ref" "s1 = sA"
      by (auto simp: attach_video_def ensure_media_dirs_id Let_def usable_ref_iff)
    with True sA RA show ?thesis by (auto simp: attached_def truthy_def)
  next
    case False
    let ?fname = "if truthy name then the name else ''video.mp4''"
    let ?ext = "if snd (splitext ?fname) \<noteq> [] then lower (snd (splitext ?fname)) else ''.mp4''"
    let ?vf = "generate_base_video_filename uid ?ext"
    let ?abs = "get_base_video_path env ?vf"
    let ?s2 = "sA\<lparr>files := write_file (files sA) ?abs c\<rparr>"
    from a f R False have w: "write_ok env ?abs"
      and r: "ref = ''base_videos/'' @ ?vf"
      and s1: "s1 = register_media env ?h ref ''video'' ?s2"
      by (auto simp: attach_video_def ensure_media_dirs_id Let_def usable_ref_iff split: if_splits)
    have R2: "media_dirs_exist env (files ?s2)"
      using RA by (rule media_dirs_exist_mono) (simp add: path_exists_write_file)
    have s1': "s1 = ?s2\<lparr>registry_doc := Document (section_put ''video'' ?h ref (doc_registry (registry_doc ?s2)))\<rparr>"
      unfolding s1 by (rule register_ready[OF R2])
    obtain t where t: "?vf = ''MEDIA_VID__'' @ t" using gen_video_prefix by blast
    have ex: "path_exists (files ?s2) (path_join (path_join (MEDIA_ROOT env) ''base_videos'') ?vf)"
      by (simp add: path_exists_write_file get_base_video_path_def MEDIA_BASE_VIDEOS_def)
    have "resolves_to_existing env (files ?s2) (''base_videos'' @ ''/'' @ ?vf)"
      by (rule fresh_media_ref_resolves[OF RA t _ _ ex]) auto
    then have res: "resolves_to_existing env (files s1) ref"
      using r s1' by simp
    have "attached env ''video'' ?h ref s1"
      unfolding attached_def using R2 res r s1' section_put_lookup by auto
    moreover have "length (stored_files (files s1)) \<le> Suc (length (stored_files (files s)))"
      using s1' sA(1) stored_files_write_le by simp
    ultimately show ?thesis by simp
  qed
qed

lemma attach_video_fix:
  assumes "attached env ''video'' (compute_file_hash env c) ref s" "compute_file_hash env c \<noteq> []"
  shows "attach_video env uid None (Some c) name s = (Inr (Some ref), s)"
proof -
  have R: "media_dirs_exist env (files s)" and res: "resolves_to_existing env (files s) ref"
    and ne: "ref \<noteq> []"
    using assms(1) by (auto simp: attached_def)
  show ?thesis
    using find_hit[OF assms] R res ne
    by (simp add: attach_video_def ensure_media_dirs_id Let_def usable_ref_iff truthy_def)
qed

lemma lower_append: "lower (a @ b) = lower a @ lower b"
  by (simp add: lower_def)

lemma endswith_append: "endswith (a @ b) b"
  by (simp add: endswith_def startswith_iff)

lemma base_image_path_is_jpg:
  "endswith (lower (get_base_image_path env (''MEDIA_IMG__'' @ uid @ ''.jpg''))) ''.jpg''"
proof -
  obtain x where "get_base_image_path env (''MEDIA_IMG__'' @ uid @ ''.jpg'')
                    = x @ ''MEDIA_IMG__'' @ uid @ ''.jpg''"
    unfolding get_base_image_path_def using path_join_suffix by blast
  then have "lower (get_base_image_path env (''MEDIA_IMG__'' @ uid @ ''.jpg''))
               = (lower x @ lower ''MEDIA_IMG__'' @ lower uid) @ ''.jpg''"
    by (simp add: lower_append) (simp add: lower_def lower_char_def)
  then show ?thesis by (simp only: endswith_append)
qed

lemma pil_to_jpg_written:
  assumes "pil_to_jpg env fs img p q = (Inr written, fs2)" "endswith (lower p) ''.jpg''"
  shows "written = p
         \<and> fs2 = write_file (ensure_dirs_exist fs [dirname p]) p (save_jpeg env q True (stored_image env img))"
  using assms by (auto simp: pil_to_jpg_def stored_image_def Let_def split: if_splits)

lemma attach_image_post:
  assumes R: "media_dirs_exist env (files s)"
    and d: "decode_upload_to_pil env c (if truthy name then the name else ''upload.jpg'') = Some img"
    and h: "compute_pil_hash env img \<noteq> []"
    and a: "attach_image env uid None (Some c) name None s = (Inr (Some ref), s1)"
  shows "attached env ''image'' (compute_pil_hash env img) ref s1
         \<and> length (stored_files (files s1)) \<le> Suc (length (stored_files (files s)))"
proof -
  let ?h = "compute_pil_hash env img"
  obtain ex sA where f: "find_existing_by_hash_or_scan env ?h ''image'' s = (ex, sA)"
    by (cases "find_existing_by_hash_or_scan env ?h ''image'' s")
  from find_ready[OF R h f] obtain regA where sA: "files sA = files s"
      "registry_doc sA = Document regA" "map_of (reg_section ''image'' regA) ?h = ex"
    by auto
  have RA: "media_dirs_exist env (files sA)" using R sA by simp
  show ?thesis
  proof (cases "truthy ex \<and> resolves_to_existing env (files sA) (the ex)")
    case True
    with a f R d have "ex = Some ref" "s1 = sA"
      by (auto simp: attach_image_def ensure_media_dirs_id Let_def usable_ref_iff)
    with True sA RA show ?thesis by (auto simp: attached_def truthy_def)
  next
    case False
    let ?fn = "''MEDIA_IMG__'' @ uid @ ''.jpg''"
    let ?abs = "get_base_image_path env ?fn"
    obtain res fs2 where p: "pil_to_jpg env (files sA) img ?abs JPEG_QUALITY_FULL = (res, fs2)"
      by (cases "pil_to_jpg env (files sA) img ?abs JPEG_QUALITY_FULL")
    from a f R d False p obtain written where w: "res = Inr written"
      and r: "ref = ''base_images/'' @ ?fn"
      and s1: "s1 = register_media env ?h ref ''image'' (sA\<lparr>files := fs2\<rparr>)"
      by (auto simp: attach_image_def ensure_media_dirs_id Let_def usable_ref_iff gen_image_jpg split: sum.splits)
    from pil_to_jpg_written[OF p[unfolded w] base_image_path_is_jpg]
    have fs2: "fs2 = write_file (ensure_dirs_exist (files sA) [dirname ?abs]) ?abs
                       (save_jpeg env JPEG_QUALITY_FULL True (stored_image env img))"
      by simp
    let ?s2 = "sA\<lparr>files := fs2\<rparr>"
    have mono: "path_exists (files sA) x \<Longrightarrow> path_exists fs2 x" for x
      unfolding fs2 by (simp add: path_exists_write_file ensure_dirs_exist_mono del: ensure_dirs_exist.simps)
    have R2: "media_dirs_exist env (files ?s2)"
      using RA by (rule media_dirs_exist_mono) (simp add: mono)
    have s1': "s1 = ?s2\<lparr>registry_doc := Document (section_put ''image'' ?h ref (doc_registry (registry_doc ?s2)))\<rparr>"
      unfolding s1 by (rule register_ready[OF R2])
    have ex: "path_exists (files ?s2) (path_join (path_join (MEDIA_ROOT env) ''base_images'') ?fn)"
      unfolding fs2 by (simp add: path_exists_write_file get_base_image_path_def MEDIA_BASE_IMAGES_def del: ensure_dirs_exist.simps)
    have "resolves_to_existing env (files ?s2) (''base_images'' @ ''/'' @ ?fn)"
      by (rule fresh_media_ref_resolves[OF RA refl _ _ ex]) auto
    then have res: "resolves_to_existing env (files s1) ref"
      using r s1' by simp
    have "attached env ''image'' ?h ref s1"
      unfolding attached_def using R2 res r s1' section_put_lookup by auto
    moreover have "length (stored_files (files s1)) \<le> Suc (length (stored_files (files s)))"
      using s1' sA(1) fs2 stored_files_write_le[of "ensure_dirs_exist (files sA) [dirname ?abs]"]
      by (simp add: stored_files_ensure_dirs del: ensure_dirs_exist.simps)
    ultimately show ?thesis by simp
  qed
qed

lemma attach_image_fix:
  assumes "attached env ''image'' (compute_pil_hash env img) ref s"
    and "decode_upload_to_pil env c (if truthy name then the name else ''upload.jpg'') = Some img"
    and "compute_pil_hash env img \<noteq> []"
  shows "attach_image env uid None (Some c) name None s = (Inr (Some ref), s)"
proof -
  have R: "media_dirs_exist env (files s)" and res: "resolves_to_existing env (files s) ref"
    and ne: "ref \<noteq> []"
    using assms(1) by (auto simp: attached_def)
  show ?thesis
    using find_hit[OF assms(1,3)] R res ne assms(2)
    by (simp add: attach_image_def ensure_media_dirs_id Let_def usable_ref_iff truthy_def)
qed

end
